theory Spec2Isabelle
  imports Main "HOL-Library.Word"
begin

section \<open>Bytes and integer encodings\<close>

type_synonym byte = "8 word"

text \<open>Little-endian value of a byte string (the wire order of field elements and scalars).\<close>

fun le_int :: "byte list \<Rightarrow> int" where
  "le_int [] = 0"
| "le_int (b # bs) = uint b + 256 * le_int bs"

text \<open>OS2IP of RFC 8017: the big-endian value of a byte string.\<close>

definition os2ip :: "byte list \<Rightarrow> int" where
  "os2ip bs = foldl (\<lambda>acc b. acc * 256 + uint b) 0 bs"

text \<open>The \<open>n\<close>-byte little-endian encoding of an integer (\<open>binary.LittleEndian\<close>, \<open>Bytes()\<close>).\<close>

fun le_bytes :: "nat \<Rightarrow> int \<Rightarrow> byte list" where
  "le_bytes 0 x = []"
| "le_bytes (Suc n) x = word_of_int (x mod 256) # le_bytes n (x div 256)"

section \<open>The field GF(2^255 - 19) of the backend\<close>

text \<open>
  The field arithmetic is the dependency \<open>filippo.io/edwards25519/field\<close>. A
  \<open>field.Element\<close> is modelled by an integer standing for its residue class; every
  operation returns the canonical representative in \<open>[0, p)\<close>, and the observers
  (\<open>Equal\<close>, \<open>IsNegative\<close>) look at the canonical representative, as the backend does
  through \<open>Bytes()\<close>. The masks (\<open>int\<close> 0 or 1 in Go) are booleans.
\<close>

definition P25519 :: int where
  "P25519 = 2 ^ 255 - 19"

definition fe_Add :: "int \<Rightarrow> int \<Rightarrow> int" where
  "fe_Add a b = (a + b) mod P25519"

definition fe_Subtract :: "int \<Rightarrow> int \<Rightarrow> int" where
  "fe_Subtract a b = (a - b) mod P25519"

definition fe_Negate :: "int \<Rightarrow> int" where
  "fe_Negate a = (- a) mod P25519"

definition fe_Multiply :: "int \<Rightarrow> int \<Rightarrow> int" where
  "fe_Multiply a b = (a * b) mod P25519"

definition fe_Square :: "int \<Rightarrow> int" where
  "fe_Square a = (a * a) mod P25519"

definition fe_Equal :: "int \<Rightarrow> int \<Rightarrow> bool" where
  "fe_Equal a b = (a mod P25519 = b mod P25519)"

definition fe_IsNegative :: "int \<Rightarrow> bool" where
  "fe_IsNegative a = odd (a mod P25519)"

definition fe_Select :: "int \<Rightarrow> int \<Rightarrow> bool \<Rightarrow> int" where
  "fe_Select a b cond = (if cond then a else b)"

definition fe_Absolute :: "int \<Rightarrow> int" where
  "fe_Absolute u = fe_Select (fe_Negate u) (u mod P25519) (fe_IsNegative u)"

text \<open>Square-and-multiply modulo \<open>p\<close>; the backend's fixed addition chains compute these powers.\<close>

function fe_pow :: "int \<Rightarrow> nat \<Rightarrow> int" where
  "fe_pow a e =
     (if e = 0 then 1
      else let h = fe_pow a (e div 2); s = (h * h) mod P25519
           in if even e then s else (s * a) mod P25519)"
  by pat_completeness auto
termination
  by (relation "measure (\<lambda>(a, e). e)") auto

declare fe_pow.simps [simp del]

text \<open>\<open>Invert\<close>: \<open>z^(p-2)\<close>, which is 0 at 0.\<close>

definition fe_Invert :: "int \<Rightarrow> int" where
  "fe_Invert z = fe_pow z (nat (P25519 - 2))"

text \<open>\<open>Pow22523\<close>: \<open>z^((p-5)/8)\<close>.\<close>

definition fe_Pow22523 :: "int \<Rightarrow> int" where
  "fe_Pow22523 z = fe_pow z (nat ((P25519 - 5) div 8))"

text \<open>The backend's own constant \<open>sqrtM1\<close>.\<close>

definition sqrtM1 :: int where
  "sqrtM1 = 19681161376707505956807079304988542015446066515923890162744021073123829784752"

text \<open>
  Modelled from the spec: \<open>SqrtRatio\<close> of the field backend, whose source is not under
  src/. The spec asks for a square-root-of-ratio returning the mask "was square" and the
  carried root; the steps are those of the backend (SQRT_RATIO_M1 of RFC 9496).
\<close>

definition fe_SqrtRatio :: "int \<Rightarrow> int \<Rightarrow> int \<times> bool" where
  "fe_SqrtRatio u v =
     (let v2 = fe_Square v;
          uv3 = fe_Multiply u (fe_Multiply v2 v);
          uv7 = fe_Multiply uv3 (fe_Square v2);
          rr = fe_Multiply uv3 (fe_Pow22523 uv7);
          check = fe_Multiply v (fe_Square rr);
          uNeg = fe_Negate u;
          correctSignSqrt = fe_Equal check u;
          flippedSignSqrt = fe_Equal check uNeg;
          flippedSignSqrtI = fe_Equal check (fe_Multiply uNeg sqrtM1);
          rPrime = fe_Multiply rr sqrtM1;
          rr = fe_Select rPrime rr (flippedSignSqrt \<or> flippedSignSqrtI)
      in (fe_Absolute rr, correctSignSqrt \<or> flippedSignSqrt))"

text \<open>
  \<open>SetBytes\<close>: 32 bytes little-endian, the top bit ignored, non-canonical values accepted
  and reduced; any other length is an error.
\<close>

definition fe_SetBytes :: "byte list \<Rightarrow> int option" where
  "fe_SetBytes x =
     (if length x \<noteq> 32 then None else Some ((le_int x mod 2 ^ 255) mod P25519))"

text \<open>\<open>SetWideBytes\<close>: 64 bytes little-endian, reduced modulo \<open>p\<close>.\<close>

definition fe_SetWideBytes :: "byte list \<Rightarrow> int option" where
  "fe_SetWideBytes x = (if length x \<noteq> 64 then None else Some (le_int x mod P25519))"

section \<open>Elligator 2 (elligator2.go)\<close>

datatype failure = Panic | DecodeError

definition mustFeFromBytes :: "byte list \<Rightarrow> failure + int" where
  "mustFeFromBytes b = (case fe_SetBytes b of None \<Rightarrow> Inl Panic | Some fe \<Rightarrow> Inr fe)"

definition mustFeFromUint64 :: "64 word \<Rightarrow> failure + int" where
  "mustFeFromUint64 x = mustFeFromBytes (le_bytes 8 (uint x) @ replicate 24 0)"

text \<open>
  The package-level constants. Each is the value its initialiser yields; the lemmas
  \<open>const_*_init\<close> below check that against \<open>mustFeFromBytes\<close> on the bytes of the source.
\<close>

definition constZero :: int where "constZero = 0"
definition constOne :: int where "constOne = 1"
definition constTwo :: int where "constTwo = fe_Add constOne constOne"

definition constMONTGOMERY_A :: int where
  "constMONTGOMERY_A = 486662"

definition constMONTGOMERY_A_SQUARED :: int where
  "constMONTGOMERY_A_SQUARED = 486662 * 486662"

definition constSQRT_M1 :: int where
  "constSQRT_M1 = 19681161376707505956807079304988542015446066515923890162744021073123829784752"

definition constMONTGOMERY_NEG_A :: int where
  "constMONTGOMERY_NEG_A = 57896044618658097711785492504343953926634992332820282019728792003956564333287"

definition constMONTGOMERY_SQRT_NEG_A_PLUS_TWO :: int where
  "constMONTGOMERY_SQRT_NEG_A_PLUS_TWO = 6853475219497561581579357271197624642482790079785650197046958215289687604742"

definition constMONTGOMERY_U_FACTOR :: int where
  "constMONTGOMERY_U_FACTOR = 18533721865243085798171333894366869895742859300972501694240749857708905250445"

definition constMONTGOMERY_V_FACTOR :: int where
  "constMONTGOMERY_V_FACTOR = 38214883241950591754978413199355411911188925816896391856984770930832735035198"

definition feIsZero :: "int \<Rightarrow> bool" where
  "feIsZero fe = fe_Equal fe constZero"

definition ell2MontgomeryFlavor :: "int \<Rightarrow> int \<times> int" where
  "ell2MontgomeryFlavor r =
     (let t1 = fe_Square r;
          t1 = fe_Multiply t1 constTwo;
          u = fe_Add t1 constOne;
          t2 = fe_Square u;
          t3 = fe_Multiply constMONTGOMERY_A_SQUARED t1;
          t3 = fe_Subtract t3 t2;
          t3 = fe_Multiply t3 constMONTGOMERY_A;
          t1 = fe_Multiply t2 u;
          t1 = fe_Multiply t1 t3;
          (t1, isSquare) = fe_SqrtRatio constOne t1;
          u = fe_Square r;
          u = fe_Multiply u constMONTGOMERY_U_FACTOR;
          v = fe_Multiply r constMONTGOMERY_V_FACTOR;
          u = fe_Select constOne u isSquare;
          v = fe_Select constOne v isSquare;
          v = fe_Multiply v t3;
          v = fe_Multiply v t1;
          t1 = fe_Square t1;
          u = fe_Multiply u constMONTGOMERY_NEG_A;
          u = fe_Multiply u t3;
          u = fe_Multiply u t2;
          u = fe_Multiply u t1;
          negV = fe_Negate v;
          v = fe_Select negV v (isSquare \<noteq> fe_IsNegative v)
      in (u, v))"

section \<open>Hash to curve: from uniform bytes to a field element (h2c.go)\<close>

definition ell :: nat where
  "ell = 48"

text \<open>
  The loop of \<open>reversedByteSlice\<close>, \<open>for i, j := bLen-1, 0; i >= 0; i, j = i-1, j+1\<close>:
  \<open>reversed_loop b n out\<close> runs the iterations \<open>i = n-1, \<dots>, 0\<close>, each writing
  \<open>out[j] = b[i]\<close> with \<open>j = bLen-1-i\<close>.
\<close>

fun reversed_loop :: "byte list \<Rightarrow> nat \<Rightarrow> byte list \<Rightarrow> byte list" where
  "reversed_loop b 0 out = out"
| "reversed_loop b (Suc i) out = reversed_loop b i (out[length b - 1 - i := b ! i])"

definition reversedByteSlice :: "byte list \<Rightarrow> byte list" where
  "reversedByteSlice b =
     (let bLen = length b
      in if bLen = 0 then []
         else reversed_loop b bLen (replicate bLen 0))"

definition uniformToField25519 :: "byte list \<Rightarrow> failure + int" where
  "uniformToField25519 b =
     (if length b \<noteq> ell then Inl Panic
      else let bExtended = replicate (64 - ell) 0;
               bExtended = bExtended @ b;
               bLE = reversedByteSlice bExtended
           in case fe_SetWideBytes bLE of
                None \<Rightarrow> Inl Panic
              | Some fe \<Rightarrow> Inr fe)"

section \<open>Basic facts\<close>

lemma P25519_pos: "0 < P25519"
  by (simp add: P25519_def)

lemma P25519_odd: "odd P25519"
  by (simp add: P25519_def)

lemma fe_Square_Negate: "fe_Square (fe_Negate r) = fe_Square r"
proof -
  have "((- r) mod P25519 * ((- r) mod P25519)) mod P25519 = ((- r) * (- r)) mod P25519"
    by (simp add: mod_mult_eq)
  then show ?thesis by (simp add: fe_Square_def fe_Negate_def)
qed

lemma fe_Multiply_Negate_left: "fe_Multiply (fe_Negate a) b = fe_Negate (fe_Multiply a b)"
proof -
  have "((- a) mod P25519 * b) mod P25519 = (- a * b) mod P25519"
    by (simp add: mod_mult_left_eq)
  also have "\<dots> = (- (a * b)) mod P25519" by simp
  also have "\<dots> = (- ((a * b) mod P25519)) mod P25519"
    by (simp add: mod_minus_eq)
  finally show ?thesis by (simp add: fe_Multiply_def fe_Negate_def)
qed

lemma fe_Negate_Negate: "fe_Negate (fe_Negate a) = a mod P25519"
  by (simp add: fe_Negate_def mod_minus_eq)

lemma fe_Multiply_range: "0 \<le> fe_Multiply a b \<and> fe_Multiply a b < P25519"
  using P25519_pos by (simp add: fe_Multiply_def)

lemma fe_Multiply_mod: "fe_Multiply a b mod P25519 = fe_Multiply a b"
  by (simp add: fe_Multiply_def)

text \<open>The final sign selection of the non-square branch does not see the sign of its input.\<close>

lemma sign_select_Negate:
  assumes "0 \<le> v" "v < P25519"
  shows "fe_Select (fe_Negate (fe_Negate v)) (fe_Negate v) (fe_IsNegative (fe_Negate v))
       = fe_Select (fe_Negate v) v (fe_IsNegative v)"
proof (cases "v = 0")
  case True
  then show ?thesis by (simp add: fe_Select_def fe_Negate_def)
next
  case False
  with assms have neg: "fe_Negate v = P25519 - v"
    by (simp add: fe_Negate_def zmod_zminus1_eq_if)
  have m: "v mod P25519 = v" using assms by simp
  have m': "(P25519 - v) mod P25519 = P25519 - v" using assms False by (intro mod_pos_pos_trivial) simp_all
  have par: "odd (P25519 - v) \<longleftrightarrow> even v" using P25519_odd by simp
  have neg2: "fe_Negate (P25519 - v) = v"
    using fe_Negate_Negate [of v] by (simp only: neg m)
  have isneg: "fe_IsNegative (P25519 - v) \<longleftrightarrow> even v"
    by (simp only: fe_IsNegative_def m' par)
  have isneg': "fe_IsNegative v \<longleftrightarrow> odd v"
    by (simp only: fe_IsNegative_def m)
  show ?thesis
    by (simp only: neg neg2 isneg isneg' fe_Select_def) simp
qed

section \<open>The Elligator 2 map, step by step\<close>

text \<open>Names for the intermediate values of \<open>ell2MontgomeryFlavor\<close>, used in the proofs.\<close>

definition ell2_t1 :: "int \<Rightarrow> int" where
  "ell2_t1 r = fe_Multiply (fe_Square r) constTwo"

definition ell2_u0 :: "int \<Rightarrow> int" where
  "ell2_u0 r = fe_Add (ell2_t1 r) constOne"

definition ell2_t2 :: "int \<Rightarrow> int" where
  "ell2_t2 r = fe_Square (ell2_u0 r)"

definition ell2_t3 :: "int \<Rightarrow> int" where
  "ell2_t3 r = fe_Multiply (fe_Subtract (fe_Multiply constMONTGOMERY_A_SQUARED (ell2_t1 r)) (ell2_t2 r))
     constMONTGOMERY_A"

definition ell2_den :: "int \<Rightarrow> int" where
  "ell2_den r = fe_Multiply (fe_Multiply (ell2_t2 r) (ell2_u0 r)) (ell2_t3 r)"

definition ell2_u :: "int \<Rightarrow> int \<Rightarrow> bool \<Rightarrow> int" where
  "ell2_u r s isSquare =
     fe_Multiply (fe_Multiply (fe_Multiply (fe_Multiply
       (fe_Select constOne (fe_Multiply (fe_Square r) constMONTGOMERY_U_FACTOR) isSquare)
       constMONTGOMERY_NEG_A) (ell2_t3 r)) (ell2_t2 r)) (fe_Square s)"

definition ell2_v :: "int \<Rightarrow> int \<Rightarrow> bool \<Rightarrow> int" where
  "ell2_v r s isSquare =
     fe_Multiply (fe_Multiply
       (fe_Select constOne (fe_Multiply r constMONTGOMERY_V_FACTOR) isSquare) (ell2_t3 r)) s"

lemma ell2MontgomeryFlavor_steps:
  "ell2MontgomeryFlavor r =
     (case fe_SqrtRatio constOne (ell2_den r) of
        (s, isSquare) \<Rightarrow>
          (ell2_u r s isSquare,
           fe_Select (fe_Negate (ell2_v r s isSquare)) (ell2_v r s isSquare)
             (isSquare \<noteq> fe_IsNegative (ell2_v r s isSquare))))"
  by (simp add: ell2MontgomeryFlavor_def Let_def ell2_t1_def ell2_u0_def ell2_t2_def ell2_t3_def
      ell2_den_def ell2_u_def ell2_v_def split: prod.splits)

lemma ell2_t1_Negate: "ell2_t1 (fe_Negate r) = ell2_t1 r"
  by (simp add: ell2_t1_def fe_Square_Negate)

lemma ell2_t3_Negate: "ell2_t3 (fe_Negate r) = ell2_t3 r"
  by (simp add: ell2_t3_def ell2_t2_def ell2_u0_def ell2_t1_Negate)

lemma ell2_den_Negate: "ell2_den (fe_Negate r) = ell2_den r"
  by (simp add: ell2_den_def ell2_t3_Negate ell2_t2_def ell2_u0_def ell2_t1_Negate)

lemma ell2_u_Negate: "ell2_u (fe_Negate r) s isSquare = ell2_u r s isSquare"
  by (simp add: ell2_u_def ell2_t3_Negate ell2_t2_def ell2_u0_def ell2_t1_Negate fe_Square_Negate)

lemma ell2_v_Negate_square: "ell2_v (fe_Negate r) s True = ell2_v r s True"
  by (simp add: ell2_v_def ell2_t3_Negate fe_Select_def)

lemma ell2_v_Negate_nonsquare: "ell2_v (fe_Negate r) s False = fe_Negate (ell2_v r s False)"
  by (simp add: ell2_v_def ell2_t3_Negate fe_Select_def fe_Multiply_Negate_left)

lemma ell2_v_range: "0 \<le> ell2_v r s b \<and> ell2_v r s b < P25519"
  by (simp add: ell2_v_def fe_Multiply_range)

section \<open>Claims on the Elligator 2 map\<close>

text \<open>
  C10: the Montgomery flavour of the Elligator 2 map is an even function: for every field
  element \<open>r\<close>, \<open>ell2MontgomeryFlavor\<close> returns the same pair \<open>(u, v)\<close> at \<open>r\<close> and at
  \<open>-r\<close>.
\<close>

theorem ell2MontgomeryFlavor_even:
  "ell2MontgomeryFlavor (fe_Negate r) = ell2MontgomeryFlavor r"
proof -
  obtain s isSquare where sr: "fe_SqrtRatio constOne (ell2_den r) = (s, isSquare)"
    by (cases "fe_SqrtRatio constOne (ell2_den r)") auto
  show ?thesis
  proof (cases isSquare)
    case True
    then show ?thesis
      by (simp add: ell2MontgomeryFlavor_steps ell2_den_Negate sr ell2_u_Negate
          ell2_v_Negate_square)
  next
    case False
    have w: "0 \<le> ell2_v r s False" "ell2_v r s False < P25519"
      using ell2_v_range by simp_all
    show ?thesis
      using False sign_select_Negate [OF w]
      by (simp add: ell2MontgomeryFlavor_steps ell2_den_Negate sr ell2_u_Negate
          ell2_v_Negate_nonsquare)
  qed
qed

section \<open>Claims on the wide reduction\<close>

lemma reversed_loop_length: "length (reversed_loop b n out) = length out"
  by (induction n arbitrary: out) simp_all

lemma reversed_loop_nth:
  assumes "n \<le> length b" "length out = length b" "j < length b"
  shows "reversed_loop b n out ! j =
           (if length b - n \<le> j then b ! (length b - 1 - j) else out ! j)"
  using assms
proof (induction n arbitrary: out)
  case 0
  then show ?case by simp
next
  case (Suc n)
  have "reversed_loop b (Suc n) out ! j =
          (if length b - n \<le> j then b ! (length b - 1 - j)
           else (out[length b - 1 - n := b ! n]) ! j)"
    using Suc.prems by (simp add: Suc.IH)
  also have "\<dots> = (if length b - Suc n \<le> j then b ! (length b - 1 - j) else out ! j)"
  proof (cases "j = length b - 1 - n")
    case True
    with Suc.prems have "length b - 1 - j = n" "\<not> length b - n \<le> j" "length b - Suc n \<le> j"
      by linarith+
    with True Suc.prems show ?thesis by simp
  next
    case False
    with Suc.prems show ?thesis by auto
  qed
  finally show ?case .
qed

lemma reversedByteSlice_rev: "reversedByteSlice b = rev b"
proof (cases "b = []")
  case True
  then show ?thesis by (simp add: reversedByteSlice_def)
next
  case False
  have "reversed_loop b (length b) (replicate (length b) 0) = rev b"
    by (rule nth_equalityI)
       (simp_all add: reversed_loop_length reversed_loop_nth rev_nth)
  with False show ?thesis by (simp add: reversedByteSlice_def Let_def)
qed

lemma le_int_append: "le_int (xs @ ys) = le_int xs + 256 ^ length xs * le_int ys"
  by (induction xs) (simp_all add: algebra_simps)

lemma os2ip_snoc: "os2ip (bs @ [b]) = os2ip bs * 256 + uint b"
  by (simp add: os2ip_def)

lemma le_int_rev: "le_int (rev bs) = os2ip bs"
  by (induction bs rule: rev_induct) (simp_all add: os2ip_snoc, simp add: os2ip_def)

lemma os2ip_zero_pad: "os2ip (replicate n 0 @ bs) = os2ip bs"
proof -
  have "foldl (\<lambda>acc b. acc * 256 + uint b) 0 (replicate n (0::byte)) = 0"
    by (induction n) simp_all
  then show ?thesis by (simp add: os2ip_def)
qed

text \<open>
  C6: for every 48-byte input \<open>b\<close>, \<open>uniformToField25519\<close> does not panic and returns
  the field element \<open>OS2IP(b) mod p\<close>, the representative in \<open>[0, p)\<close> of the big-endian
  value of \<open>b\<close>; it gets there by left-padding \<open>b\<close> with zeros to 64 bytes and reversing
  the bytes before the 512-bit reduction \<open>SetWideBytes\<close>.
\<close>

theorem uniformToField25519_os2ip:
  assumes "length b = 48"
  shows "uniformToField25519 b = Inr (os2ip b mod P25519)
       \<and> 0 \<le> os2ip b mod P25519 \<and> os2ip b mod P25519 < P25519
       \<and> fe_SetWideBytes (reversedByteSlice (replicate 16 0 @ b)) = Some (os2ip b mod P25519)"
proof -
  have wide: "fe_SetWideBytes (reversedByteSlice (replicate 16 0 @ b)) = Some (os2ip b mod P25519)"
    using assms le_int_rev [of "replicate 16 0 @ b"]
    by (simp add: fe_SetWideBytes_def reversedByteSlice_rev os2ip_zero_pad del: rev_append rev_replicate)
  then show ?thesis
    using assms P25519_pos by (simp add: uniformToField25519_def ell_def Let_def)
qed

theorem uniformToField25519_os2ip_witness:
  "length (replicate 47 0 @ [5 :: byte]) = 48
   \<and> uniformToField25519 (replicate 47 0 @ [5]) = Inr 5"
proof -
  have v: "os2ip (replicate 47 0 @ [5 :: byte]) = 5"
    by (simp add: os2ip_zero_pad) (simp add: os2ip_def)
  have "(5 :: int) mod P25519 = 5"
    by (simp add: P25519_def)
  then show ?thesis
    using uniformToField25519_os2ip [of "replicate 47 0 @ [5]"] by (simp add: v)
qed

end
